theory Spec2Isabelle
  imports Main
begin

section \<open>Exceptions\<close>

text \<open>
  Python exceptions are values.  \<open>JsonsError\<close> and \<open>DeserializationError\<close> are the two
  classes that \<open>default_union.py\<close> imports from \<open>jsons.exceptions\<close>; the others are the
  built-in exceptions that the modelled code can raise itself (\<open>IndexError\<close> from a list
  subscript, \<open>KeyError\<close> from a dict subscript, \<open>Exception\<close> from the decorator's guard)
  and \<open>OtherException\<close> stands for any exception class outside the \<open>JsonsError\<close> family
  that a collaborator (\<open>load\<close>, \<open>dump\<close>, the decorated callable) raises.
\<close>

datatype ('v, 'ty) exn =
    JsonsError string
  | DeserializationError string 'v 'ty
  | IndexError
  | KeyError string
  | Exception string
  | OtherException string

text \<open>
  Modelled from the spec: the class hierarchy of \<open>jsons/exceptions.py\<close>, which is not
  among the sources.  This is what \<open>except JsonsError\<close> catches: \<open>JsonsError\<close> stands
  for an instance of that class or of a subclass other than \<open>DeserializationError\<close>, and
  \<open>DeserializationError\<close>, the failure of the union deserializer, is itself one of the
  conversion failures that a load raises.
\<close>

fun isinstance_JsonsError :: "('v, 'ty) exn \<Rightarrow> bool" where
  "isinstance_JsonsError (JsonsError _) = True"
| "isinstance_JsonsError (DeserializationError _ _ _) = True"
| "isinstance_JsonsError _ = False"

section \<open>The union deserializer (\<open>jsons/deserializers/default_union.py\<close>)\<close>

text \<open>
  Keyword arguments are an association list from names to values.  The collaborators of
  \<open>default_union_deserializer\<close> are parameters of the model, collected in one record:
  \<open>load\<close> (\<open>jsons._main_impl\<close>), \<open>get_union_params\<close> (\<open>jsons._compatibility_impl\<close>),
  \<open>get_class_name\<close> (\<open>jsons._common_impl\<close>), the attribute \<open>cls.__args__\<close> and
  \<open>str(cls)\<close>.
\<close>

type_synonym 'k kwargs = "(string \<times> 'k) list"

record ('v, 'ty, 'k) union_env =
  load :: "'v \<Rightarrow> 'ty \<Rightarrow> 'k kwargs \<Rightarrow> ('v, 'ty) exn + 'v"
  get_union_params :: "'ty \<Rightarrow> 'ty list"
  get_class_name :: "'ty \<Rightarrow> 'k \<Rightarrow> string"
  dunder_args :: "'ty \<Rightarrow> 'ty list"
  str_of_type :: "'ty \<Rightarrow> string"

text \<open>\<open>sep.join(parts)\<close> on strings.\<close>

fun join :: "string \<Rightarrow> string list \<Rightarrow> string" where
  "join sep [] = []"
| "join sep [x] = x"
| "join sep (x # y # ys) = x @ sep @ join sep (y # ys)"

text \<open>
  The \<open>for\<close> loop of lines 19 to 23.  The first component of the result lists the
  candidates on which \<open>load\<close> was called, in call order.  The second component is
  \<open>Some (Inr r)\<close> when the loop left through \<open>return\<close>, \<open>Some (Inl e)\<close> when an exception
  that \<open>except JsonsError\<close> does not catch left the loop, and \<open>None\<close> when the loop ran to
  its end, which is when Python executes the \<open>else\<close> branch of the \<open>for\<close>.
\<close>

fun union_loop ::
  "('v, 'ty, 'k) union_env \<Rightarrow> 'v \<Rightarrow> 'k kwargs \<Rightarrow> 'ty list
     \<Rightarrow> 'ty list \<times> (('v, 'ty) exn + 'v) option" where
  "union_loop env obj kw [] = ([], None)"
| "union_loop env obj kw (sub_type # rest) =
     (case load env obj sub_type kw of
        Inr r \<Rightarrow> ([sub_type], Some (Inr r))
      | Inl e \<Rightarrow>
          if isinstance_JsonsError e
          then (case union_loop env obj kw rest of
                  (tried, out) \<Rightarrow> (sub_type # tried, out))
          else ([sub_type], Some (Inl e)))"

text \<open>The message built in lines 26 to 29.\<close>

definition union_err_msg :: "('v, 'ty, 'k) union_env \<Rightarrow> 'ty \<Rightarrow> 'k \<Rightarrow> string" where
  \<open>union_err_msg env cls fork_inst =
     (let args_msg = join '', '' (map (\<lambda>c. get_class_name env c fork_inst)
                                    (dunder_args env cls))
      in ''Could not match the object of type "'' @ str_of_type env cls
           @ ''" to any type of the Union: '' @ args_msg)\<close>

definition default_union_deserializer ::
  "('v, 'ty, 'k) union_env \<Rightarrow> 'v \<Rightarrow> 'ty \<Rightarrow> 'k kwargs
     \<Rightarrow> 'ty list \<times> (('v, 'ty) exn + 'v)" where
  "default_union_deserializer env obj cls kw =
     (case union_loop env obj kw (get_union_params env cls) of
        (tried, Some out) \<Rightarrow> (tried, out)
      | (tried, None) \<Rightarrow>
          (case map_of kw ''fork_inst'' of
             None \<Rightarrow> (tried, Inl (KeyError ''fork_inst''))
           | Some fork_inst \<Rightarrow>
               (tried, Inl (DeserializationError (union_err_msg env cls fork_inst) obj cls))))"

section \<open>The decorators (\<open>jsons/decorators.py\<close>)\<close>

subsection \<open>Callables, signatures and the Python built-ins used\<close>

text \<open>
  \<open>inspect.signature(func)\<close> yields the ordered parameters (each with a name and an
  annotation that may be \<open>Parameter.empty\<close>) and the return annotation.
\<close>

datatype 'ty annotation = Parameter_empty | Annotation 'ty

record 'ty parameter =
  name :: string
  annotation :: "'ty annotation"

record 'ty signature =
  sig_parameters :: "'ty parameter list"
  return_annotation :: "'ty annotation"

text \<open>
  What the object handed to the decorator is.  The three tests of \<open>_decorator\<close> read it:
  \<open>isinstance(decorated, staticmethod)\<close>, \<open>isinstance(decorated, type)\<close> and
  \<open>iscoroutinefunction(decorated)\<close>.  A \<open>classmethod\<close> object is an instance of neither
  \<open>staticmethod\<close> nor \<open>type\<close>, and it is not a coroutine function.
\<close>

datatype callable_kind = Function | CoroutineFunction | StaticMethod | ClassMethod | Class

fun isinstance_staticmethod :: "callable_kind \<Rightarrow> bool" where
  "isinstance_staticmethod k = (k = StaticMethod)"

fun isinstance_type :: "callable_kind \<Rightarrow> bool" where
  "isinstance_type k = (k = Class)"

fun iscoroutinefunction :: "callable_kind \<Rightarrow> bool" where
  "iscoroutinefunction k = (k = CoroutineFunction)"

text \<open>
  The decorated object: its \<open>__name__\<close>, its kind, the signature that
  \<open>inspect.signature\<close> finds for it, and what calling it with positional and keyword
  arguments gives (a value or an exception; a failure to bind the arguments is one of
  the exceptions).
\<close>

record ('v, 'ty) callable =
  dunder_name :: string
  kind :: callable_kind
  sig :: "'ty signature"
  call :: "'v list \<Rightarrow> 'v kwargs \<Rightarrow> ('v, 'ty) exn + 'v"

text \<open>
  The built-ins that inspect or resolve a value: \<open>hasattr\<close>, \<open>inspect.isawaitable\<close> and
  the \<open>await\<close> expression, which gives the awaitable's result or the exception it raises.
\<close>

record ('v, 'ty) builtins =
  hasattr :: "'v \<Rightarrow> string \<Rightarrow> bool"
  isawaitable :: "'v \<Rightarrow> bool"
  await :: "'v \<Rightarrow> ('v, 'ty) exn + 'v"

text \<open>
  The mapper is \<open>jsons.load\<close> or \<open>jsons.dump\<close>, called as
  \<open>mapper(arg, cls=cls, fork_inst=fork_inst, **mapper_kwargs)\<close>.
\<close>

type_synonym ('v, 'ty, 'f, 'k) mapper =
  "'v \<Rightarrow> 'ty option \<Rightarrow> 'f \<Rightarrow> 'k kwargs \<Rightarrow> ('v, 'ty) exn + 'v"

subsection \<open>Observable events\<close>

text \<open>
  Every function of the module returns the events it caused, in order, next to its
  result: a call of \<open>inspect.signature\<close> on the callable of that name, a call of the
  mapper with its four arguments, a call of the decorated callable with the positional
  and keyword arguments it received, an \<open>await\<close> of a value, and a warning.
\<close>

datatype ('v, 'ty, 'f, 'k) event =
    Signature string
  | Mapper 'v "'ty option" 'f "'k kwargs"
  | Call string "'v list" "'v kwargs"
  | Await 'v
  | Warn string

fun is_Signature :: "('v, 'ty, 'f, 'k) event \<Rightarrow> bool" where
  "is_Signature (Signature _) = True"
| "is_Signature _ = False"

fun is_Mapper :: "('v, 'ty, 'f, 'k) event \<Rightarrow> bool" where
  "is_Mapper (Mapper _ _ _ _) = True"
| "is_Mapper _ = False"

fun is_Call :: "('v, 'ty, 'f, 'k) event \<Rightarrow> bool" where
  "is_Call (Call _ _ _) = True"
| "is_Call _ = False"

fun is_Await :: "('v, 'ty, 'f, 'k) event \<Rightarrow> bool" where
  "is_Await (Await _) = True"
| "is_Await _ = False"

subsection \<open>\<open>_get_params_sig\<close>\<close>

text \<open>\<open>xs[i]\<close> for a list and a non-negative index: \<open>IndexError\<close> out of range.\<close>

definition subscript :: "'a list \<Rightarrow> nat \<Rightarrow> ('v, 'ty) exn + 'a" where
  "subscript xs i = (if i < length xs then Inr (xs ! i) else Inl IndexError)"

text \<open>
  A list comprehension \<open>[f(i) for i in indices]\<close> whose element expression may raise:
  the first exception ends it.
\<close>

fun comprehension :: "(nat \<Rightarrow> 'e + 'a) \<Rightarrow> nat list \<Rightarrow> 'e + 'a list" where
  "comprehension f [] = Inr []"
| "comprehension f (i # is) =
     (case f i of
        Inl e \<Rightarrow> Inl e
      | Inr x \<Rightarrow> (case comprehension f is of Inl e \<Rightarrow> Inl e | Inr xs \<Rightarrow> Inr (x # xs)))"

text \<open>
  \<open>sig.parameters\<close> is an ordered mapping from the parameter names to the parameters and
  \<open>param_names\<close> lists its keys in order, so \<open>params[param_names[i]]\<close> is the \<open>i\<close>-th
  parameter once \<open>param_names[i]\<close> has not raised.  \<open>args[i]\<close> is in range, since
  \<open>i\<close> ranges over \<open>range(len(args))\<close>.
\<close>

definition get_params_sig ::
  "'v list \<Rightarrow> ('v, 'ty) callable
     \<Rightarrow> ('v, 'ty, 'f, 'k) event list \<times> (('v, 'ty) exn + ('v \<times> 'ty parameter) list)" where
  "get_params_sig args func =
     (let params = sig_parameters (sig func);
          param_names = map name params
      in ([Signature (dunder_name func)],
          comprehension
            (\<lambda>i. case subscript param_names i of
                    Inl e \<Rightarrow> Inl e
                  | Inr param_name \<Rightarrow> Inr (args ! i, params ! i))
            [0 ..< length args]))"

subsection \<open>\<open>_map_args\<close>\<close>

text \<open>\<open>sig.annotation if sig.annotation != Parameter.empty else None\<close>.\<close>

fun cls_of :: "'ty annotation \<Rightarrow> 'ty option" where
  "cls_of Parameter_empty = None"
| "cls_of (Annotation t) = Some t"

text \<open>The condition of line 82.\<close>

definition is_receiver ::
  "('v, 'ty) builtins \<Rightarrow> ('v, 'ty) callable \<Rightarrow> 'v \<Rightarrow> 'ty parameter \<Rightarrow> bool" where
  "is_receiver rt decorated arg p =
     (name p \<in> set [''self'', ''cls''] \<and> hasattr rt arg (dunder_name decorated))"

text \<open>The \<open>for\<close> loop of lines 81 to 90, with the list \<open>new_args\<close> built so far.\<close>

fun map_args_loop ::
  "('v, 'ty) builtins \<Rightarrow> ('v, 'ty) callable \<Rightarrow> 'f \<Rightarrow> ('v, 'ty, 'f, 'k) mapper \<Rightarrow> 'k kwargs
     \<Rightarrow> ('v \<times> 'ty parameter) list \<Rightarrow> 'v list
     \<Rightarrow> ('v, 'ty, 'f, 'k) event list \<times> (('v, 'ty) exn + 'v list)" where
  "map_args_loop rt decorated fork_inst mapper mapper_kwargs [] new_args = ([], Inr new_args)"
| "map_args_loop rt decorated fork_inst mapper mapper_kwargs ((arg, p) # rest) new_args =
     (if is_receiver rt decorated arg p
      then map_args_loop rt decorated fork_inst mapper mapper_kwargs rest (new_args @ [arg])
      else
        (let cls = cls_of (annotation p) in
         case mapper arg cls fork_inst mapper_kwargs of
           Inl e \<Rightarrow> ([Mapper arg cls fork_inst mapper_kwargs], Inl e)
         | Inr new_arg \<Rightarrow>
             (case map_args_loop rt decorated fork_inst mapper mapper_kwargs rest
                     (new_args @ [new_arg]) of
                (ev, r) \<Rightarrow> (Mapper arg cls fork_inst mapper_kwargs # ev, r))))"

definition map_args ::
  "('v, 'ty) builtins \<Rightarrow> 'v list \<Rightarrow> ('v, 'ty) callable \<Rightarrow> 'f \<Rightarrow> ('v, 'ty, 'f, 'k) mapper
     \<Rightarrow> 'k kwargs \<Rightarrow> ('v, 'ty, 'f, 'k) event list \<times> (('v, 'ty) exn + 'v list)" where
  "map_args rt args decorated fork_inst mapper mapper_kwargs =
     (case get_params_sig args decorated of
        (ev, Inl e) \<Rightarrow> (ev, Inl e)
      | (ev, Inr params_sig) \<Rightarrow>
          (case map_args_loop rt decorated fork_inst mapper mapper_kwargs params_sig [] of
             (ev', r) \<Rightarrow> (ev @ ev', r)))"

subsection \<open>\<open>_map_returnvalue\<close> and \<open>_run_decorated\<close>\<close>

definition map_returnvalue ::
  "'v \<Rightarrow> ('v, 'ty) callable \<Rightarrow> 'f \<Rightarrow> ('v, 'ty, 'f, 'k) mapper \<Rightarrow> 'k kwargs
     \<Rightarrow> ('v, 'ty, 'f, 'k) event list \<times> (('v, 'ty) exn + 'v)" where
  "map_returnvalue returnvalue decorated fork_inst mapper mapper_kwargs =
     (let cls = cls_of (return_annotation (sig decorated))
      in ([Signature (dunder_name decorated), Mapper returnvalue cls fork_inst mapper_kwargs],
          mapper returnvalue cls fork_inst mapper_kwargs))"

text \<open>The mapper argument is \<open>None\<close> when the caller passed \<open>None\<close> (line 103).\<close>

definition run_decorated ::
  "('v, 'ty) builtins \<Rightarrow> ('v, 'ty) callable \<Rightarrow> ('v, 'ty, 'f, 'k) mapper option \<Rightarrow> 'f
     \<Rightarrow> 'v list \<Rightarrow> 'v kwargs \<Rightarrow> 'k kwargs
     \<Rightarrow> ('v, 'ty, 'f, 'k) event list \<times> (('v, 'ty) exn + 'v)" where
  "run_decorated rt decorated mapper fork_inst args kwargs mapper_kwargs =
     (case mapper of
        None \<Rightarrow> ([Call (dunder_name decorated) args kwargs], call decorated args kwargs)
      | Some m \<Rightarrow>
          (case map_args rt args decorated fork_inst m mapper_kwargs of
             (ev, Inl e) \<Rightarrow> (ev, Inl e)
           | (ev, Inr new_args) \<Rightarrow>
               (ev @ [Call (dunder_name decorated) new_args kwargs],
                call decorated new_args kwargs)))"

subsection \<open>\<open>_get_decorator\<close>: the two wrappers and the guard\<close>

text \<open>
  \<open>wrapper\<close> is \<open>_wrapper\<close>.  \<open>async_wrapper\<close> is what awaiting the coroutine
  \<open>_async_wrapper(*args, **kwargs)\<close> does and gives: its body from the first line to the
  \<open>return\<close>.  The variables of the enclosing \<open>_get_decorator\<close> and \<open>_decorator\<close> come
  first in the argument lists.
\<close>

definition wrapper ::
  "('v, 'ty) builtins \<Rightarrow> bool \<Rightarrow> bool \<Rightarrow> 'f \<Rightarrow> ('v, 'ty, 'f, 'k) mapper \<Rightarrow> 'k kwargs
     \<Rightarrow> ('v, 'ty) callable \<Rightarrow> 'v list \<Rightarrow> 'v kwargs
     \<Rightarrow> ('v, 'ty, 'f, 'k) event list \<times> (('v, 'ty) exn + 'v)" where
  "wrapper rt parameters returnvalue fork_inst mapper mapper_kwargs decorated args kwargs =
     (case run_decorated rt decorated (if parameters then Some mapper else None)
             fork_inst args kwargs mapper_kwargs of
        (ev, Inl e) \<Rightarrow> (ev, Inl e)
      | (ev, Inr result) \<Rightarrow>
          if returnvalue
          then (case map_returnvalue result decorated fork_inst mapper mapper_kwargs of
                  (ev', r) \<Rightarrow> (ev @ ev', r))
          else (ev, Inr result))"

definition async_wrapper ::
  "('v, 'ty) builtins \<Rightarrow> bool \<Rightarrow> bool \<Rightarrow> 'f \<Rightarrow> ('v, 'ty, 'f, 'k) mapper \<Rightarrow> 'k kwargs
     \<Rightarrow> ('v, 'ty) callable \<Rightarrow> 'v list \<Rightarrow> 'v kwargs
     \<Rightarrow> ('v, 'ty, 'f, 'k) event list \<times> (('v, 'ty) exn + 'v)" where
  "async_wrapper rt parameters returnvalue fork_inst mapper mapper_kwargs decorated args kwargs =
     (case run_decorated rt decorated (if parameters then Some mapper else None)
             fork_inst args kwargs mapper_kwargs of
        (ev, Inl e) \<Rightarrow> (ev, Inl e)
      | (ev, Inr result) \<Rightarrow>
          (case (if isawaitable rt result
                 then ([Await result], await rt result)
                 else ([], Inr result)) of
             (ev1, Inl e) \<Rightarrow> (ev @ ev1, Inl e)
           | (ev1, Inr result') \<Rightarrow>
               if returnvalue
               then (case map_returnvalue result' decorated fork_inst mapper mapper_kwargs of
                       (ev', r) \<Rightarrow> (ev @ ev1 @ ev', r))
               else (ev @ ev1, Inr result')))"

text \<open>Which of the two closures \<open>_decorator\<close> returned.\<close>

datatype wrapper_variant = Wrapper | Async_wrapper

definition staticmethod_warning :: string where
  "staticmethod_warning =
     ''You cannot decorate a static- or classmethod. '' @
     ''You can still obtain the desired behaviour by '' @
     ''decorating your method first and then place '' @
     ''@staticmethod/@classmethod on top (switching the '' @
     ''order).''"

definition decorator ::
  "('v, 'ty) callable \<Rightarrow> ('v, 'ty, 'f, 'k) event list \<times> (('v, 'ty) exn + wrapper_variant)" where
  "decorator decorated =
     (if isinstance_staticmethod (kind decorated)
      then ([Warn staticmethod_warning],
            Inl (Exception ''Cannot decorate a static- or classmethod.''))
      else if isinstance_type (kind decorated)
      then ([], Inl (Exception ''Cannot decorate a class.''))
      else ([], Inr (if iscoroutinefunction (kind decorated) then Async_wrapper else Wrapper)))"

text \<open>Calling (and, for the coroutine, awaiting) the closure that \<open>_decorator\<close> returned.\<close>

fun invoke ::
  "wrapper_variant \<Rightarrow> ('v, 'ty) builtins \<Rightarrow> bool \<Rightarrow> bool \<Rightarrow> 'f \<Rightarrow> ('v, 'ty, 'f, 'k) mapper
     \<Rightarrow> 'k kwargs \<Rightarrow> ('v, 'ty) callable \<Rightarrow> 'v list \<Rightarrow> 'v kwargs
     \<Rightarrow> ('v, 'ty, 'f, 'k) event list \<times> (('v, 'ty) exn + 'v)" where
  "invoke Wrapper = wrapper"
| "invoke Async_wrapper = async_wrapper"

section \<open>Sample values, types and collaborators\<close>

text \<open>
  A small universe of Python values and type objects, and collaborators over it, on
  which the general results below are instantiated.
\<close>

datatype pyval = PyNone | PyInt int | PyStr string | PyDate string
  | PyObject string "string list" | PyCoroutine pyval

datatype pytype = TInt | TStr | TBool | TFloat | TDate | TUnion "pytype list"

fun example_load :: "pyval \<Rightarrow> pytype \<Rightarrow> string kwargs \<Rightarrow> (pyval, pytype) exn + pyval" where
  "example_load (PyInt n) TInt kw = Inr (PyInt n)"
| "example_load (PyStr s) TStr kw = Inr (PyStr s)"
| "example_load (PyStr s) TDate kw = Inr (PyDate s)"
| "example_load (PyStr s) TFloat kw = Inl (OtherException ''ValueError'')"
| "example_load v t kw = Inl (JsonsError ''no match'')"

fun example_class_name :: "pytype \<Rightarrow> string" where
  "example_class_name TInt = ''int''"
| "example_class_name TStr = ''str''"
| "example_class_name TBool = ''bool''"
| "example_class_name TFloat = ''float''"
| "example_class_name TDate = ''datetime''"
| "example_class_name (TUnion ts) = ''Union''"

fun example_union_params :: "pytype \<Rightarrow> pytype list" where
  "example_union_params (TUnion ts) = ts"
| "example_union_params t = []"

fun example_str :: "pytype \<Rightarrow> string" where
  "example_str (TUnion ts) = ''typing.Union['' @ join '', '' (map example_class_name ts) @ '']''"
| "example_str t = example_class_name t"

definition example_env :: "(pyval, pytype, string) union_env" where
  "example_env =
     \<lparr> load = example_load,
       get_union_params = example_union_params,
       get_class_name = (\<lambda>c fork_inst. example_class_name c),
       dunder_args = example_union_params,
       str_of_type = example_str \<rparr>"

definition example_kwargs :: "string kwargs" where
  "example_kwargs = [(''fork_inst'', ''JsonSerializable'')]"

text \<open>Built-ins over the sample values: an object exposes the attributes it lists.\<close>

fun example_hasattr :: "pyval \<Rightarrow> string \<Rightarrow> bool" where
  "example_hasattr (PyObject c attrs) n = (n \<in> set attrs)"
| "example_hasattr v n = False"

fun example_isawaitable :: "pyval \<Rightarrow> bool" where
  "example_isawaitable (PyCoroutine v) = True"
| "example_isawaitable v = False"

fun example_await :: "pyval \<Rightarrow> (pyval, pytype) exn + pyval" where
  "example_await (PyCoroutine v) = Inr v"
| "example_await v = Inl (OtherException ''TypeError'')"

definition example_builtins :: "(pyval, pytype) builtins" where
  "example_builtins =
     \<lparr> hasattr = example_hasattr, isawaitable = example_isawaitable, await = example_await \<rparr>"

text \<open>A mapper in the manner of \<open>jsons.load\<close>: no target type leaves the value as it is.\<close>

fun example_mapper :: "(pyval, pytype, string, string) mapper" where
  "example_mapper v None fork_inst kw = Inr v"
| "example_mapper v (Some t) fork_inst kw = example_load v t kw"

text \<open>
  The method \<open>def shift(self, when: datetime) -> datetime\<close>, which returns the string
  \<open>'2020-01-01'\<close>, and an object that has it.
\<close>

fun shift_body :: "pyval list \<Rightarrow> pyval kwargs \<Rightarrow> (pyval, pytype) exn + pyval" where
  "shift_body [self, PyDate d] kw = Inr (PyStr ''2020-01-01'')"
| "shift_body args kw = Inl (OtherException ''TypeError'')"

definition example_shift :: "(pyval, pytype) callable" where
  "example_shift =
     \<lparr> dunder_name = ''shift'', kind = Function,
       sig = \<lparr> sig_parameters = [\<lparr> name = ''self'', annotation = Parameter_empty \<rparr>,
                                 \<lparr> name = ''when'', annotation = Annotation TDate \<rparr>],
               return_annotation = Annotation TDate \<rparr>,
       call = shift_body \<rparr>"

definition example_receiver :: pyval where
  "example_receiver = PyObject ''Calendar'' [''shift'']"

text \<open>
  The coroutine function \<open>async def fetch(when: datetime) -> datetime\<close>: calling it gives
  a coroutine that resolves to the string \<open>'2020-01-01'\<close>.
\<close>

fun fetch_body :: "pyval list \<Rightarrow> pyval kwargs \<Rightarrow> (pyval, pytype) exn + pyval" where
  "fetch_body [PyDate d] kw = Inr (PyCoroutine (PyStr ''2020-01-01''))"
| "fetch_body args kw = Inl (OtherException ''TypeError'')"

definition example_fetch :: "(pyval, pytype) callable" where
  "example_fetch =
     \<lparr> dunder_name = ''fetch'', kind = CoroutineFunction,
       sig = \<lparr> sig_parameters = [\<lparr> name = ''when'', annotation = Annotation TDate \<rparr>],
               return_annotation = Annotation TDate \<rparr>,
       call = fetch_body \<rparr>"

text \<open>
  The object that \<open>@classmethod\<close> makes of \<open>def make(cls, when: datetime)\<close>; it is what
  the decorator receives when \<open>@loaded()\<close> is written above \<open>@classmethod\<close>.
\<close>

definition example_classmethod :: "(pyval, pytype) callable" where
  "example_classmethod =
     \<lparr> dunder_name = ''make'', kind = ClassMethod,
       sig = \<lparr> sig_parameters = [\<lparr> name = ''cls'', annotation = Parameter_empty \<rparr>,
                                 \<lparr> name = ''when'', annotation = Annotation TDate \<rparr>],
               return_annotation = Parameter_empty \<rparr>,
       call = (\<lambda>args kw. Inl (OtherException ''TypeError'')) \<rparr>"

section \<open>Properties of the union deserializer\<close>

lemma union_loop_returns_first:
  "i < length cs \<Longrightarrow> load env obj (cs ! i) kw = Inr r \<Longrightarrow>
   (\<forall>j<i. \<exists>e. load env obj (cs ! j) kw = Inl e \<and> isinstance_JsonsError e) \<Longrightarrow>
   union_loop env obj kw cs = (take (Suc i) cs, Some (Inr r))"
proof (induction cs arbitrary: i)
  case Nil
  then show ?case by simp
next
  case (Cons c cs)
  show ?case
  proof (cases i)
    case 0
    with Cons.prems show ?thesis by simp
  next
    case (Suc n)
    from Cons.prems Suc obtain e where e: "load env obj c kw = Inl e" "isinstance_JsonsError e"
      by fastforce
    have "\<forall>j<n. \<exists>e. load env obj (cs ! j) kw = Inl e \<and> isinstance_JsonsError e"
      using Cons.prems(3) Suc by fastforce
    with Cons.IH [of n] Cons.prems Suc
    have "union_loop env obj kw cs = (take (Suc n) cs, Some (Inr r))" by simp
    with e Suc show ?thesis by simp
  qed
qed

lemma union_loop_propagates:
  "i < length cs \<Longrightarrow> load env obj (cs ! i) kw = Inl e \<Longrightarrow> \<not> isinstance_JsonsError e \<Longrightarrow>
   (\<forall>j<i. \<exists>e'. load env obj (cs ! j) kw = Inl e' \<and> isinstance_JsonsError e') \<Longrightarrow>
   union_loop env obj kw cs = (take (Suc i) cs, Some (Inl e))"
proof (induction cs arbitrary: i)
  case Nil
  then show ?case by simp
next
  case (Cons c cs)
  show ?case
  proof (cases i)
    case 0
    with Cons.prems show ?thesis by simp
  next
    case (Suc n)
    from Cons.prems Suc obtain e' where e: "load env obj c kw = Inl e'" "isinstance_JsonsError e'"
      by fastforce
    have "\<forall>j<n. \<exists>e'. load env obj (cs ! j) kw = Inl e' \<and> isinstance_JsonsError e'"
      using Cons.prems(4) Suc by fastforce
    with Cons.IH [of n] Cons.prems Suc
    have "union_loop env obj kw cs = (take (Suc n) cs, Some (Inl e))" by simp
    with e Suc show ?thesis by simp
  qed
qed

lemma union_loop_exhausted:
  "(\<forall>c \<in> set cs. \<exists>e. load env obj c kw = Inl e \<and> isinstance_JsonsError e) \<Longrightarrow>
   union_loop env obj kw cs = (cs, None)"
  by (induction cs) auto

lemma union_loop_tried_prefix:
  "union_loop env obj kw cs = (tried, out) \<Longrightarrow> tried = take (length tried) cs"
  by (induction cs arbitrary: tried out) (auto split: sum.splits if_splits prod.splits)

lemma union_loop_moved_on:
  "union_loop env obj kw cs = (tried, out) \<Longrightarrow> Suc j < length tried \<Longrightarrow>
   \<exists>e. load env obj (cs ! j) kw = Inl e \<and> isinstance_JsonsError e"
proof (induction cs arbitrary: tried out j)
  case Nil
  then show ?case by simp
next
  case (Cons c cs)
  show ?case
  proof (cases "load env obj c kw")
    case (Inr r)
    with Cons.prems show ?thesis by auto
  next
    case (Inl e)
    show ?thesis
    proof (cases "isinstance_JsonsError e")
      case False
      with Inl Cons.prems show ?thesis by auto
    next
      case True
      obtain tried' out' where rest: "union_loop env obj kw cs = (tried', out')"
        by (cases "union_loop env obj kw cs")
      with True Inl Cons.prems(1) have tr: "tried = c # tried'" by simp
      show ?thesis
      proof (cases j)
        case 0
        with Inl True show ?thesis by simp
      next
        case (Suc n)
        with tr Cons.prems(2) have "Suc n < length tried'" by simp
        from Cons.IH [OF rest this] Suc show ?thesis by simp
      qed
    qed
  qed
qed

lemma union_exhausted_raises:
  assumes "\<forall>c \<in> set (get_union_params env cls). \<exists>e. load env obj c kw = Inl e \<and> isinstance_JsonsError e"
    and "map_of kw ''fork_inst'' = Some fork_inst"
  shows "default_union_deserializer env obj cls kw =
           (get_union_params env cls,
            Inl (DeserializationError (union_err_msg env cls fork_inst) obj cls))"
  using assms by (simp add: default_union_deserializer_def union_loop_exhausted)

text \<open>
  Claim C1, as amended.  When \<open>load\<close> succeeds on the candidate at index \<open>i\<close> and on
  every candidate before it \<open>load\<close> raised an exception of the \<open>JsonsError\<close> family, the
  deserializer returns the result of that \<open>load\<close>, and the candidates on which \<open>load\<close>
  was called are exactly the first \<open>i + 1\<close>: none after index \<open>i\<close> is attempted.
\<close>

theorem union_first_success:
  assumes "i < length (get_union_params env cls)"
    and "load env obj (get_union_params env cls ! i) kw = Inr r"
    and "\<forall>j<i. \<exists>e. load env obj (get_union_params env cls ! j) kw = Inl e
                    \<and> isinstance_JsonsError e"
  shows "default_union_deserializer env obj cls kw
           = (take (Suc i) (get_union_params env cls), Inr r)"
  using assms by (simp add: default_union_deserializer_def union_loop_returns_first)

text \<open>
  The candidates \<open>[int, str]\<close> and the value \<open>'5'\<close>: \<open>int\<close> fails with a
  \<open>JsonsError\<close>, \<open>str\<close> succeeds, and the string is returned.
\<close>

theorem union_first_success_witness:
  "default_union_deserializer example_env (PyStr ''5'') (TUnion [TInt, TStr]) example_kwargs
     = ([TInt, TStr], Inr (PyStr ''5''))"
  using union_first_success [of 1 example_env "TUnion [TInt, TStr]" "PyStr ''5''"
      example_kwargs "PyStr ''5''"]
  by (simp add: example_env_def)

text \<open>
  Claim C1 as stated asks only that \<open>load\<close> succeeds on some candidates.  With the
  candidates \<open>[int, float, str]\<close> and the value \<open>'5'\<close>, \<open>load\<close> succeeds on \<open>str\<close> alone,
  so \<open>str\<close> is the lowest-indexed candidate that succeeds; but \<open>load\<close> for \<open>float\<close>
  raises an exception outside the \<open>JsonsError\<close> family, which \<open>except JsonsError\<close> does
  not catch: the deserializer raises it and \<open>str\<close> is never tried.
\<close>

theorem union_first_success_counterexample:
  "get_union_params example_env (TUnion [TInt, TFloat, TStr]) = [TInt, TFloat, TStr]
   \<and> isl (load example_env (PyStr ''5'') TInt example_kwargs)
   \<and> isl (load example_env (PyStr ''5'') TFloat example_kwargs)
   \<and> load example_env (PyStr ''5'') TStr example_kwargs = Inr (PyStr ''5'')
   \<and> default_union_deserializer example_env (PyStr ''5'') (TUnion [TInt, TFloat, TStr])
        example_kwargs = ([TInt, TFloat], Inl (OtherException ''ValueError''))
   \<and> snd (default_union_deserializer example_env (PyStr ''5'') (TUnion [TInt, TFloat, TStr])
        example_kwargs) \<noteq> load example_env (PyStr ''5'') TStr example_kwargs"
  by (simp add: example_env_def default_union_deserializer_def)

text \<open>
  Claim C2.  With the candidates \<open>[int, bool]\<close> and the value \<open>'hello'\<close> both loads fail
  and a \<open>DeserializationError\<close> is raised whose message names both candidates.  The
  place of the message that reads \<open>the object of type "..."\<close> is filled with \<open>str(cls)\<close>,
  the union type, and not with the type of the value, \<open>str\<close>, which the message does not
  contain.
\<close>

theorem union_message_names_union_type:
  \<open>default_union_deserializer example_env (PyStr ''hello'') (TUnion [TInt, TBool])
     example_kwargs
   = ([TInt, TBool],
      Inl (DeserializationError
        ''Could not match the object of type "typing.Union[int, bool]" to any type of the Union: int, bool''
        (PyStr ''hello'') (TUnion [TInt, TBool])))\<close>
  by (simp add: example_env_def example_kwargs_def default_union_deserializer_def
      union_err_msg_def)

text \<open>
  Claim C3.  Whatever the deserializer does, a candidate after index \<open>j\<close> was attempted
  only if \<open>load\<close> on candidate \<open>j\<close> raised an exception of the \<open>JsonsError\<close> family; and
  when candidate \<open>i\<close> is the first on which \<open>load\<close> raises an exception \<open>e\<close> outside that
  family (those before it having raised inside it), \<open>e\<close> is what the deserializer raises,
  and the candidates attempted are the first \<open>i + 1\<close>.
\<close>

theorem union_only_jsons_errors_skipped:
  assumes "default_union_deserializer env obj cls kw = (tried, out)"
  shows "(\<forall>j. Suc j < length tried \<longrightarrow>
            (\<exists>e. load env obj (get_union_params env cls ! j) kw = Inl e
                 \<and> isinstance_JsonsError e))
       \<and> (\<forall>i e. i < length (get_union_params env cls)
              \<and> load env obj (get_union_params env cls ! i) kw = Inl e
              \<and> \<not> isinstance_JsonsError e
              \<and> (\<forall>j<i. \<exists>e'. load env obj (get_union_params env cls ! j) kw = Inl e'
                              \<and> isinstance_JsonsError e')
            \<longrightarrow> tried = take (Suc i) (get_union_params env cls) \<and> out = Inl e)"
proof -
  obtain tr res where loop: "union_loop env obj kw (get_union_params env cls) = (tr, res)"
    by (cases "union_loop env obj kw (get_union_params env cls)")
  with assms have tr: "tr = tried"
    by (auto simp: default_union_deserializer_def split: option.splits)
  have a: "\<forall>j. Suc j < length tried \<longrightarrow>
            (\<exists>e. load env obj (get_union_params env cls ! j) kw = Inl e
                 \<and> isinstance_JsonsError e)"
    using union_loop_moved_on [OF loop] tr by blast
  have b: "tried = take (Suc i) (get_union_params env cls) \<and> out = Inl e"
    if "i < length (get_union_params env cls)"
      and "load env obj (get_union_params env cls ! i) kw = Inl e"
      and "\<not> isinstance_JsonsError e"
      and "\<forall>j<i. \<exists>e'. load env obj (get_union_params env cls ! j) kw = Inl e'
                              \<and> isinstance_JsonsError e'"
    for i e
    using union_loop_propagates [OF that] assms
    by (simp add: default_union_deserializer_def)
  from a b show ?thesis by blast
qed

text \<open>
  The candidates \<open>[int, float, str]\<close> and the value \<open>'5'\<close>: the \<open>JsonsError\<close> of
  \<open>int\<close> is skipped, the \<open>ValueError\<close> of \<open>float\<close> is raised.
\<close>

theorem union_only_jsons_errors_skipped_witness:
  "fst (default_union_deserializer example_env (PyStr ''5'') (TUnion [TInt, TFloat, TStr])
          example_kwargs) = [TInt, TFloat]
   \<and> snd (default_union_deserializer example_env (PyStr ''5'') (TUnion [TInt, TFloat, TStr])
          example_kwargs) = Inl (OtherException ''ValueError'')
   \<and> load example_env (PyStr ''5'') TInt example_kwargs = Inl (JsonsError ''no match'')
   \<and> isinstance_JsonsError (JsonsError ''no match'' :: (pyval, pytype) exn)"
proof -
  let ?d = "default_union_deserializer example_env (PyStr ''5'') (TUnion [TInt, TFloat, TStr])
          example_kwargs"
  have eq: "?d = (fst ?d, snd ?d)" by simp
  have cs: "get_union_params example_env (TUnion [TInt, TFloat, TStr]) = [TInt, TFloat, TStr]"
    by (simp add: example_env_def)
  have l0: "load example_env (PyStr ''5'') TInt example_kwargs = Inl (JsonsError ''no match'')"
    by (simp add: example_env_def)
  have l1: "load example_env (PyStr ''5'') TFloat example_kwargs
       = Inl (OtherException ''ValueError'')"
    by (simp add: example_env_def)
  from union_only_jsons_errors_skipped [OF eq]
  have "1 < length [TInt, TFloat, TStr]
     \<and> load example_env (PyStr ''5'') ([TInt, TFloat, TStr] ! 1) example_kwargs
          = Inl (OtherException ''ValueError'')
     \<and> \<not> isinstance_JsonsError (OtherException ''ValueError'' :: (pyval, pytype) exn)
     \<and> (\<forall>j<1. \<exists>e'. load example_env (PyStr ''5'') ([TInt, TFloat, TStr] ! j) example_kwargs
              = Inl e' \<and> isinstance_JsonsError e')
     \<longrightarrow> fst ?d = take (Suc 1) [TInt, TFloat, TStr] \<and> snd ?d = Inl (OtherException ''ValueError'')"
    unfolding cs by blast
  moreover have "\<forall>j<(1::nat). \<exists>e'. load example_env (PyStr ''5'') ([TInt, TFloat, TStr] ! j) example_kwargs
              = Inl e' \<and> isinstance_JsonsError e'"
    using l0 by simp
  ultimately have "fst ?d = take (Suc 1) [TInt, TFloat, TStr] \<and> snd ?d = Inl (OtherException ''ValueError'')"
    using l1 by simp
  with l0 show ?thesis by simp
qed

section \<open>Properties of the decorators\<close>

subsection \<open>Argument pairing and the argument loop\<close>

lemma comprehension_all_ok:
  "(\<forall>i \<in> set is. f i = Inr (g i)) \<Longrightarrow> comprehension f is = Inr (map g is)"
  by (induction "is") auto

lemma comprehension_raises:
  "(\<forall>i \<in> set is. f i = Inl e \<or> (\<exists>x. f i = Inr x)) \<Longrightarrow> (\<exists>i \<in> set is. f i = Inl e) \<Longrightarrow>
   comprehension f is = Inl e"
proof (induction "is")
  case Nil
  then show ?case by simp
next
  case (Cons i "is")
  show ?case
  proof (cases "f i")
    case (Inl e')
    with Cons.prems(1) have "e' = e" by auto
    with Inl show ?thesis by simp
  next
    case (Inr x)
    with Cons.prems have "\<exists>j \<in> set is. f j = Inl e" by auto
    with Cons.IH Cons.prems(1) have "comprehension f is = Inl e" by simp
    with Inr show ?thesis by simp
  qed
qed

lemma zip_as_index_map:
  "length xs \<le> length ys \<Longrightarrow> map (\<lambda>i. (xs ! i, ys ! i)) [0 ..< length xs] = zip xs ys"
  by (rule nth_equalityI) auto

lemma get_params_sig_eq:
  "get_params_sig args func =
     ([Signature (dunder_name func)],
      if length args \<le> length (sig_parameters (sig func))
      then Inr (zip args (sig_parameters (sig func)))
      else Inl IndexError)"
proof (cases "length args \<le> length (sig_parameters (sig func))")
  case True
  let ?ps = "sig_parameters (sig func)"
  let ?f = "\<lambda>i. case subscript (map name ?ps) i :: ('a, 'b) exn + string of
                    Inl e \<Rightarrow> Inl e
                  | Inr param_name \<Rightarrow> Inr (args ! i, ?ps ! i)"
  have "\<forall>i \<in> set [0 ..< length args]. ?f i = Inr (args ! i, ?ps ! i)"
    using True by (auto simp: subscript_def)
  then have "comprehension ?f [0 ..< length args]
               = Inr (map (\<lambda>i. (args ! i, ?ps ! i)) [0 ..< length args])"
    by (rule comprehension_all_ok)
  with True show ?thesis
    by (simp add: get_params_sig_def zip_as_index_map)
next
  case False
  let ?ps = "sig_parameters (sig func)"
  let ?f = "\<lambda>i. case subscript (map name ?ps) i :: ('a, 'b) exn + string of
                    Inl e \<Rightarrow> Inl e
                  | Inr param_name \<Rightarrow> Inr (args ! i, ?ps ! i)"
  have a: "\<forall>i \<in> set [0 ..< length args]. ?f i = Inl IndexError \<or> (\<exists>x. ?f i = Inr x)"
    by (auto simp: subscript_def)
  have b: "\<exists>i \<in> set [0 ..< length args]. ?f i = Inl IndexError"
  proof
    show "length ?ps \<in> set [0 ..< length args]" using False by simp
    show "?f (length ?ps) = Inl IndexError" by (simp add: subscript_def)
  qed
  from a b have "comprehension ?f [0 ..< length args] = Inl IndexError"
    by (rule comprehension_raises)
  with False show ?thesis
    by (simp add: get_params_sig_def)
qed

lemma map_args_loop_events:
  "\<forall>e \<in> set (fst (map_args_loop rt d f m mk ps acc)). is_Mapper e"
proof (induction ps arbitrary: acc)
  case Nil
  show ?case by simp
next
  case (Cons ap ps)
  obtain a p where ap: "ap = (a, p)" by (cases ap)
  show ?case
  proof (cases "is_receiver rt d a p")
    case True
    with ap Cons.IH [of "acc @ [a]"] show ?thesis by simp
  next
    case False
    show ?thesis
    proof (cases "m a (cls_of (annotation p)) f mk")
      case (Inl e)
      with False ap show ?thesis by simp
    next
      case (Inr b)
      with False ap Cons.IH [of "acc @ [b]"] show ?thesis
        by (simp split: prod.splits)
    qed
  qed
qed

lemma map_args_loop_success:
  "map_args_loop rt d f m mk ps acc = (ev, Inr new_args) \<Longrightarrow>
   \<exists>res. new_args = acc @ res \<and> length res = length ps
     \<and> (\<forall>i<length ps.
           if is_receiver rt d (fst (ps ! i)) (snd (ps ! i))
           then res ! i = fst (ps ! i)
           else m (fst (ps ! i)) (cls_of (annotation (snd (ps ! i)))) f mk = Inr (res ! i))
     \<and> ev = map (\<lambda>(a, p). Mapper a (cls_of (annotation p)) f mk)
              (filter (\<lambda>(a, p). \<not> is_receiver rt d a p) ps)"
proof (induction ps arbitrary: acc ev new_args)
  case Nil
  then show ?case by simp
next
  case (Cons ap ps)
  obtain a p where ap: "ap = (a, p)" by (cases ap)
  show ?case
  proof (cases "is_receiver rt d a p")
    case True
    with Cons.prems ap
    have "map_args_loop rt d f m mk ps (acc @ [a]) = (ev, Inr new_args)" by simp
    from Cons.IH [OF this] obtain res where res:
      "new_args = (acc @ [a]) @ res" "length res = length ps"
      "\<forall>i<length ps.
           if is_receiver rt d (fst (ps ! i)) (snd (ps ! i))
           then res ! i = fst (ps ! i)
           else m (fst (ps ! i)) (cls_of (annotation (snd (ps ! i)))) f mk = Inr (res ! i)"
      "ev = map (\<lambda>(a, p). Mapper a (cls_of (annotation p)) f mk)
              (filter (\<lambda>(a, p). \<not> is_receiver rt d a p) ps)"
      by blast
    have "\<forall>i<length (ap # ps).
           if is_receiver rt d (fst ((ap # ps) ! i)) (snd ((ap # ps) ! i))
           then (a # res) ! i = fst ((ap # ps) ! i)
           else m (fst ((ap # ps) ! i)) (cls_of (annotation (snd ((ap # ps) ! i)))) f mk
                  = Inr ((a # res) ! i)"
    proof (intro allI impI)
      fix i assume "i < length (ap # ps)"
      then show "if is_receiver rt d (fst ((ap # ps) ! i)) (snd ((ap # ps) ! i))
           then (a # res) ! i = fst ((ap # ps) ! i)
           else m (fst ((ap # ps) ! i)) (cls_of (annotation (snd ((ap # ps) ! i)))) f mk
                  = Inr ((a # res) ! i)"
        using res(3) True ap by (cases i) auto
    qed
    with res True ap show ?thesis
      by (intro exI [of _ "a # res"]) simp
  next
    case False
    with Cons.prems ap obtain b ev' where b:
      "m a (cls_of (annotation p)) f mk = Inr b"
      "map_args_loop rt d f m mk ps (acc @ [b]) = (ev', Inr new_args)"
      "ev = Mapper a (cls_of (annotation p)) f mk # ev'"
      by (auto simp: Let_def split: sum.splits prod.splits)
    from Cons.IH [OF b(2)] obtain res where res:
      "new_args = (acc @ [b]) @ res" "length res = length ps"
      "\<forall>i<length ps.
           if is_receiver rt d (fst (ps ! i)) (snd (ps ! i))
           then res ! i = fst (ps ! i)
           else m (fst (ps ! i)) (cls_of (annotation (snd (ps ! i)))) f mk = Inr (res ! i)"
      "ev' = map (\<lambda>(a, p). Mapper a (cls_of (annotation p)) f mk)
              (filter (\<lambda>(a, p). \<not> is_receiver rt d a p) ps)"
      by blast
    have "\<forall>i<length (ap # ps).
           if is_receiver rt d (fst ((ap # ps) ! i)) (snd ((ap # ps) ! i))
           then (b # res) ! i = fst ((ap # ps) ! i)
           else m (fst ((ap # ps) ! i)) (cls_of (annotation (snd ((ap # ps) ! i)))) f mk
                  = Inr ((b # res) ! i)"
    proof (intro allI impI)
      fix i assume "i < length (ap # ps)"
      then show "if is_receiver rt d (fst ((ap # ps) ! i)) (snd ((ap # ps) ! i))
           then (b # res) ! i = fst ((ap # ps) ! i)
           else m (fst ((ap # ps) ! i)) (cls_of (annotation (snd ((ap # ps) ! i)))) f mk
                  = Inr ((b # res) ! i)"
        using res(3) False ap b(1) by (cases i) auto
    qed
    with res False ap b show ?thesis
      by (intro exI [of _ "b # res"]) simp
  qed
qed

lemma map_args_success:
  assumes "map_args rt args d f m mk = (ev, Inr new_args)"
  shows "length args \<le> length (sig_parameters (sig d))
     \<and> length new_args = length args
     \<and> (\<forall>i<length args.
           if is_receiver rt d (args ! i) (sig_parameters (sig d) ! i)
           then new_args ! i = args ! i
           else m (args ! i) (cls_of (annotation (sig_parameters (sig d) ! i))) f mk
                  = Inr (new_args ! i))
     \<and> ev = Signature (dunder_name d) #
              map (\<lambda>(a, p). Mapper a (cls_of (annotation p)) f mk)
                (filter (\<lambda>(a, p). \<not> is_receiver rt d a p) (zip args (sig_parameters (sig d))))"
proof -
  let ?ps = "sig_parameters (sig d)"
  have len: "length args \<le> length ?ps"
    using assms by (auto simp: map_args_def get_params_sig_eq split: if_splits)
  then obtain ev' where loop:
    "map_args_loop rt d f m mk (zip args ?ps) [] = (ev', Inr new_args)"
    "ev = Signature (dunder_name d) # ev'"
    using assms by (auto simp: map_args_def get_params_sig_eq split: prod.splits)
  from map_args_loop_success [OF loop(1)] len loop(2) show ?thesis
    by (auto simp: min_def)
qed


text \<open>With enough parameters and a mapper that succeeds where it is called, the arguments are mapped.\<close>

lemma map_args_loop_total:
  "(\<forall>(a, p) \<in> set ps. \<not> is_receiver rt d a p
       \<longrightarrow> (\<exists>b. m a (cls_of (annotation p)) f mk = Inr b)) \<Longrightarrow>
   \<exists>ev res. map_args_loop rt d f m mk ps acc = (ev, Inr res)"
proof (induction ps arbitrary: acc)
  case Nil
  show ?case by simp
next
  case (Cons ap ps)
  obtain a p where ap: "ap = (a, p)" by (cases ap)
  from Cons.prems have rest: "\<forall>(a, p) \<in> set ps. \<not> is_receiver rt d a p
       \<longrightarrow> (\<exists>b. m a (cls_of (annotation p)) f mk = Inr b)" by simp
  show ?case
  proof (cases "is_receiver rt d a p")
    case True
    with ap Cons.IH [OF rest, of "acc @ [a]"] show ?thesis by simp
  next
    case False
    with Cons.prems ap obtain b where b: "m a (cls_of (annotation p)) f mk = Inr b" by auto
    from Cons.IH [OF rest, of "acc @ [b]"] obtain ev res where
      "map_args_loop rt d f m mk ps (acc @ [b]) = (ev, Inr res)" by blast
    with False ap b show ?thesis by simp
  qed
qed

lemma map_args_total:
  assumes "length args \<le> length (sig_parameters (sig d))"
    and "\<forall>(a, p) \<in> set (zip args (sig_parameters (sig d))). \<not> is_receiver rt d a p
           \<longrightarrow> (\<exists>b. m a (cls_of (annotation p)) f mk = Inr b)"
  shows "\<exists>ev new_args. map_args rt args d f m mk = (ev, Inr new_args)"
proof -
  from map_args_loop_total [of "zip args (sig_parameters (sig d))" rt d m f mk "[]"] assms(2)
  obtain ev res where
    "map_args_loop rt d f m mk (zip args (sig_parameters (sig d))) [] = (ev, Inr res)"
    by blast
  with assms(1) show ?thesis by (simp add: map_args_def get_params_sig_eq)
qed

lemma map_args_events:
  "\<forall>e \<in> set (fst (map_args rt args d f m mk)). is_Signature e \<or> is_Mapper e"
proof (cases "length args \<le> length (sig_parameters (sig d))")
  case True
  then show ?thesis
    using map_args_loop_events [of rt d f m mk "zip args (sig_parameters (sig d))" "[]"]
    by (auto simp: map_args_def get_params_sig_eq split: prod.splits)
next
  case False
  then show ?thesis by (simp add: map_args_def get_params_sig_eq)
qed

lemma map_args_signature_count:
  "filter is_Signature (fst (map_args rt args d f m mk)) = [Signature (dunder_name d)]"
proof -
  have no: "filter is_Signature ev = []" if "\<forall>e \<in> set ev. is_Mapper e"
    for ev :: "('a, 'b, 'c, 'd) event list"
    using that by (induction ev) (auto elim: is_Mapper.elims)
  show ?thesis
  proof (cases "length args \<le> length (sig_parameters (sig d))")
    case True
    then show ?thesis
      using no [OF map_args_loop_events [of rt d f m mk "zip args (sig_parameters (sig d))" "[]"]]
      by (auto simp: map_args_def get_params_sig_eq split: prod.splits)
  next
    case False
    then show ?thesis by (simp add: map_args_def get_params_sig_eq)
  qed
qed

lemma run_decorated_with_mapper:
  assumes "map_args rt args d f m mk = (ev, Inr new_args)"
  shows "run_decorated rt d (Some m) f args kw mk
           = (ev @ [Call (dunder_name d) new_args kw], call d new_args kw)"
  using assms by (simp add: run_decorated_def)

lemma run_decorated_without_mapper:
  "run_decorated rt d None f args kw mk = ([Call (dunder_name d) args kw], call d args kw)"
  by (simp add: run_decorated_def)

lemma run_decorated_shape:
  "run_decorated rt d mo f args kw mk = (ev, Inr raw) \<Longrightarrow>
   \<exists>evp new_args. ev = evp @ [Call (dunder_name d) new_args kw]
      \<and> (\<forall>e \<in> set evp. is_Signature e \<or> is_Mapper e)
      \<and> call d new_args kw = Inr raw"
proof (cases mo)
  case None
  assume "run_decorated rt d mo f args kw mk = (ev, Inr raw)"
  with None show ?thesis by (auto simp: run_decorated_def)
next
  case (Some m)
  assume r: "run_decorated rt d mo f args kw mk = (ev, Inr raw)"
  obtain evp res where ma: "map_args rt args d f m mk = (evp, res)"
    by (cases "map_args rt args d f m mk")
  with r Some obtain new_args where na: "res = Inr new_args"
    by (cases res) (auto simp: run_decorated_def)
  from map_args_events [of rt args d f m mk] ma
  have "\<forall>e \<in> set evp. is_Signature e \<or> is_Mapper e" by simp
  with r Some ma na show ?thesis by (auto simp: run_decorated_def)
qed

lemma run_decorated_calls:
  "Call n a kw' \<in> set (fst (run_decorated rt d mo f args kw mk)) \<Longrightarrow> kw' = kw"
proof (cases mo)
  case None
  assume "Call n a kw' \<in> set (fst (run_decorated rt d mo f args kw mk))"
  with None show ?thesis by (simp add: run_decorated_def)
next
  case (Some m)
  assume c: "Call n a kw' \<in> set (fst (run_decorated rt d mo f args kw mk))"
  obtain evp res where ma: "map_args rt args d f m mk = (evp, res)"
    by (cases "map_args rt args d f m mk")
  from map_args_events [of rt args d f m mk] ma
  have "Call n a kw' \<notin> set evp" by auto
  with c Some ma show ?thesis
    by (cases res) (auto simp: run_decorated_def)
qed

lemma run_decorated_mapper_events:
  "filter is_Mapper (fst (run_decorated rt d mo f args kw mk))
     = filter is_Mapper (fst (run_decorated rt d mo f args kw' mk))"
proof (cases mo)
  case None
  then show ?thesis by (simp add: run_decorated_def)
next
  case (Some m)
  obtain evp res where ma: "map_args rt args d f m mk = (evp, res)"
    by (cases "map_args rt args d f m mk")
  with Some show ?thesis by (cases res) (simp_all add: run_decorated_def)
qed

subsection \<open>The wrappers\<close>

lemma invoke_calls:
  "Call n a kw' \<in> set (fst (invoke w rt p rv f m mk d args kw)) \<Longrightarrow> kw' = kw"
proof -
  assume c: "Call n a kw' \<in> set (fst (invoke w rt p rv f m mk d args kw))"
  let ?mo = "if p then Some m else None"
  obtain ev res where run: "run_decorated rt d ?mo f args kw mk = (ev, res)"
    by (cases "run_decorated rt d ?mo f args kw mk")
  have "Call n a kw' \<in> set ev"
  proof (cases w)
    case Wrapper
    with c run show ?thesis
      by (cases res) (auto simp: wrapper_def map_returnvalue_def Let_def split: if_splits)
  next
    case Async_wrapper
    with c run show ?thesis
      by (cases res)
        (auto simp: async_wrapper_def map_returnvalue_def Let_def split: if_splits sum.splits)
  qed
  with run run_decorated_calls [of n a kw' rt d ?mo f args kw mk] show ?thesis by simp
qed

lemma run_decorated_signature_count:
  "length (filter is_Signature (fst (run_decorated rt d (if p then Some m else None) f args kw mk)))
     = (if p then 1 else 0)"
proof (cases p)
  case False
  then show ?thesis by (simp add: run_decorated_def)
next
  case True
  obtain evp res where ma: "map_args rt args d f m mk = (evp, res)"
    by (cases "map_args rt args d f m mk")
  with map_args_signature_count [of rt args d f m mk]
  have "filter is_Signature evp = [Signature (dunder_name d)]" by simp
  with True ma show ?thesis by (cases res) (simp_all add: run_decorated_def)
qed

lemma invoke_signature_count:
  "length (filter is_Signature (fst (invoke w rt p rv f m mk d args kw)))
     = (if p then 1 else 0)
       + (if rv \<and> \<not> isl (snd (invoke w rt p False f m mk d args kw)) then 1 else 0)"
proof -
  let ?mo = "if p then Some m else None"
  obtain ev res where run: "run_decorated rt d ?mo f args kw mk = (ev, res)"
    by (cases "run_decorated rt d ?mo f args kw mk")
  with run_decorated_signature_count [of rt d p m f args kw mk]
  have n: "length (filter is_Signature ev) = (if p then 1 else 0)" by simp
  show ?thesis
  proof (cases w)
    case Wrapper
    with run n show ?thesis
      by (cases res) (auto simp: wrapper_def map_returnvalue_def Let_def)
  next
    case Async_wrapper
    with run n show ?thesis
      by (cases res) (auto simp: async_wrapper_def map_returnvalue_def Let_def split: sum.splits)
  qed
qed

lemma decorator_no_signature:
  "filter is_Signature (fst (decorator d)) = []"
  by (simp add: decorator_def)

lemma decorator_rejects_staticmethod:
  "kind d = StaticMethod \<Longrightarrow>
   decorator d = ([Warn staticmethod_warning],
                  Inl (Exception ''Cannot decorate a static- or classmethod.''))"
  by (simp add: decorator_def)

lemma decorator_rejects_class:
  "kind d = Class \<Longrightarrow> decorator d = ([], Inl (Exception ''Cannot decorate a class.''))"
  by (simp add: decorator_def)

lemma invoke_too_many_args:
  assumes "length (sig_parameters (sig d)) < length args"
  shows "invoke w rt True rv f m mk d args kw = ([Signature (dunder_name d)], Inl IndexError)"
proof -
  from assms have "map_args rt args d f m mk = ([Signature (dunder_name d)], Inl IndexError)"
    by (simp add: map_args_def get_params_sig_eq)
  then have "run_decorated rt d (Some m) f args kw mk
               = ([Signature (dunder_name d)], Inl IndexError)"
    by (simp add: run_decorated_def)
  then show ?thesis
    by (cases w) (simp_all add: wrapper_def async_wrapper_def)
qed

subsection \<open>The samples evaluated\<close>

lemma example_shift_map_args:
  "map_args example_builtins [example_receiver, PyStr ''2018-10-04''] example_shift
     ''JsonSerializable'' example_mapper []
   = ([Signature ''shift'', Mapper (PyStr ''2018-10-04'') (Some TDate) ''JsonSerializable'' []],
      Inr [example_receiver, PyDate ''2018-10-04''])"
  by (simp add: map_args_def get_params_sig_eq example_shift_def example_receiver_def
      example_builtins_def is_receiver_def)

lemma example_shift_run:
  "run_decorated example_builtins example_shift (if True then Some example_mapper else None)
     ''JsonSerializable'' [example_receiver, PyStr ''2018-10-04''] [] []
   = ([Signature ''shift'', Mapper (PyStr ''2018-10-04'') (Some TDate) ''JsonSerializable'' [],
       Call ''shift'' [example_receiver, PyDate ''2018-10-04''] []],
      Inr (PyStr ''2020-01-01''))"
  using example_shift_map_args
  by (simp add: run_decorated_def) (simp add: example_shift_def example_receiver_def)

lemma example_fetch_run:
  "run_decorated example_builtins example_fetch (if True then Some example_mapper else None)
     ''JsonSerializable'' [PyStr ''2018-10-04''] [] []
   = ([Signature ''fetch'', Mapper (PyStr ''2018-10-04'') (Some TDate) ''JsonSerializable'' [],
       Call ''fetch'' [PyDate ''2018-10-04''] []],
      Inr (PyCoroutine (PyStr ''2020-01-01'')))"
  by (simp add: run_decorated_def map_args_def get_params_sig_eq example_fetch_def
      example_builtins_def is_receiver_def)

text \<open>Both wrappers, after \<open>_run_decorated\<close> and with \<open>parameters\<close> false.\<close>

lemma invoke_after_run:
  assumes "run_decorated rt d (if p then Some m else None) f args kw mk = (ev, Inr raw)"
    and "(if w = Async_wrapper \<and> isawaitable rt raw
          then ([Await raw], await rt raw) else ([], Inr raw)) = (ev1, Inr result)"
  shows "invoke w rt p True f m mk d args kw
           = (ev @ ev1 @ [Signature (dunder_name d),
                          Mapper result (cls_of (return_annotation (sig d))) f mk],
              m result (cls_of (return_annotation (sig d))) f mk)"
    and "invoke w rt p False f m mk d args kw = (ev @ ev1, Inr result)"
proof -
  show "invoke w rt p True f m mk d args kw
           = (ev @ ev1 @ [Signature (dunder_name d),
                          Mapper result (cls_of (return_annotation (sig d))) f mk],
              m result (cls_of (return_annotation (sig d))) f mk)"
  proof (cases w)
    case Wrapper
    with assms show ?thesis by (simp add: wrapper_def map_returnvalue_def Let_def)
  next
    case Async_wrapper
    with assms show ?thesis
      by (cases "isawaitable rt raw")
        (simp_all add: async_wrapper_def map_returnvalue_def Let_def)
  qed
  show "invoke w rt p False f m mk d args kw = (ev @ ev1, Inr result)"
  proof (cases w)
    case Wrapper
    with assms show ?thesis by (simp add: wrapper_def)
  next
    case Async_wrapper
    with assms show ?thesis
      by (cases "isawaitable rt raw") (simp_all add: async_wrapper_def)
  qed
qed

lemma invoke_without_parameters:
  "invoke w rt False rv f m mk d args kw
     = (case call d args kw of
          Inl e \<Rightarrow> ([Call (dunder_name d) args kw], Inl e)
        | Inr raw \<Rightarrow>
            (case (if w = Async_wrapper \<and> isawaitable rt raw
                   then ([Await raw], await rt raw) else ([], Inr raw)) of
               (ev1, Inl e) \<Rightarrow> (Call (dunder_name d) args kw # ev1, Inl e)
             | (ev1, Inr result) \<Rightarrow>
                 if rv
                 then (Call (dunder_name d) args kw # ev1 @
                         [Signature (dunder_name d),
                          Mapper result (cls_of (return_annotation (sig d))) f mk],
                       m result (cls_of (return_annotation (sig d))) f mk)
                 else (Call (dunder_name d) args kw # ev1, Inr result)))"
proof (cases w)
  case Wrapper
  then show ?thesis
    by (simp add: wrapper_def run_decorated_def map_returnvalue_def Let_def split: sum.splits)
next
  case Async_wrapper
  then show ?thesis
    by (simp add: async_wrapper_def run_decorated_def map_returnvalue_def Let_def
        split: sum.splits)
qed

subsection \<open>The claims about the decorators\<close>

text \<open>
  Claim C4.  When parameter conversion is enabled and the arguments have been mapped,
  the decorated callable is called with the mapped arguments, of which there are as many
  as positional arguments: at a position whose parameter is named \<open>self\<close> or \<open>cls\<close> and
  whose argument has an attribute of the callable's name, the argument itself; at every
  other position, what the mapper returned for the argument with the parameter's
  annotation as \<open>cls\<close> (\<open>None\<close> when there is no annotation).  The mapper was called for
  the positions of the second kind only, in order, after one call of \<open>signature\<close>.
\<close>

theorem receiver_skip_rule:
  assumes "map_args rt args decorated fork_inst mapper mapper_kwargs = (ev, Inr new_args)"
  shows "run_decorated rt decorated (Some mapper) fork_inst args kwargs mapper_kwargs
           = (ev @ [Call (dunder_name decorated) new_args kwargs],
              call decorated new_args kwargs)
     \<and> length args \<le> length (sig_parameters (sig decorated))
     \<and> length new_args = length args
     \<and> (\<forall>i<length args.
           if is_receiver rt decorated (args ! i) (sig_parameters (sig decorated) ! i)
           then new_args ! i = args ! i
           else mapper (args ! i) (cls_of (annotation (sig_parameters (sig decorated) ! i)))
                  fork_inst mapper_kwargs = Inr (new_args ! i))
     \<and> ev = Signature (dunder_name decorated) #
              map (\<lambda>(a, p). Mapper a (cls_of (annotation p)) fork_inst mapper_kwargs)
                (filter (\<lambda>(a, p). \<not> is_receiver rt decorated a p)
                   (zip args (sig_parameters (sig decorated))))"
  using run_decorated_with_mapper [OF assms] map_args_success [OF assms] by simp

text \<open>
  The method \<open>shift\<close> called with a receiver that has \<open>shift\<close> and with a string: the
  receiver goes through untouched, the string is mapped to a date.
\<close>

theorem receiver_skip_rule_witness:
  "run_decorated example_builtins example_shift (Some example_mapper) ''JsonSerializable''
     [example_receiver, PyStr ''2018-10-04''] [] []
   = ([Signature ''shift'', Mapper (PyStr ''2018-10-04'') (Some TDate) ''JsonSerializable'' [],
       Call ''shift'' [example_receiver, PyDate ''2018-10-04''] []],
      call example_shift [example_receiver, PyDate ''2018-10-04''] [])
   \<and> is_receiver example_builtins example_shift example_receiver
        (sig_parameters (sig example_shift) ! 0)
   \<and> \<not> is_receiver example_builtins example_shift (PyStr ''2018-10-04'')
        (sig_parameters (sig example_shift) ! 1)"
  using receiver_skip_rule [OF example_shift_map_args, of "[]"]
  by (simp add: example_shift_def example_receiver_def example_builtins_def is_receiver_def)

text \<open>
  Claim C5, for both wrappers.  After the decorated callable has returned \<open>raw\<close>, the
  coroutine wrapper awaits \<open>raw\<close> if it is awaitable (lines 122 and 123) and the ordinary
  wrapper leaves it as it is; call what this gives \<open>result\<close>.  With \<open>parameters\<close> false
  the decorated callable receives the positional arguments as they are and the mapper is
  called on \<open>result\<close> alone, and only if \<open>returnvalue\<close> is true.  Whatever \<open>parameters\<close>
  is: with \<open>returnvalue\<close> true the wrapper calls the mapper on \<open>result\<close> with the
  return annotation as \<open>cls\<close> (\<open>None\<close> when there is none) and returns what the mapper
  returns; with \<open>returnvalue\<close> false it returns \<open>result\<close>.
\<close>

theorem adaptation_flags:
  "invoke w rt False returnvalue fork_inst mapper mapper_kwargs decorated args kwargs
     = (case call decorated args kwargs of
          Inl e \<Rightarrow> ([Call (dunder_name decorated) args kwargs], Inl e)
        | Inr raw \<Rightarrow>
            (case (if w = Async_wrapper \<and> isawaitable rt raw
                   then ([Await raw], await rt raw) else ([], Inr raw)) of
               (ev1, Inl e) \<Rightarrow> (Call (dunder_name decorated) args kwargs # ev1, Inl e)
             | (ev1, Inr result) \<Rightarrow>
                 if returnvalue
                 then (Call (dunder_name decorated) args kwargs # ev1 @
                         [Signature (dunder_name decorated),
                          Mapper result (cls_of (return_annotation (sig decorated)))
                            fork_inst mapper_kwargs],
                       mapper result (cls_of (return_annotation (sig decorated)))
                         fork_inst mapper_kwargs)
                 else (Call (dunder_name decorated) args kwargs # ev1, Inr result)))
   \<and> (\<forall>ev raw ev1 result.
         run_decorated rt decorated (if parameters then Some mapper else None) fork_inst
           args kwargs mapper_kwargs = (ev, Inr raw)
         \<and> (if w = Async_wrapper \<and> isawaitable rt raw
             then ([Await raw], await rt raw) else ([], Inr raw)) = (ev1, Inr result)
         \<longrightarrow> invoke w rt parameters True fork_inst mapper mapper_kwargs decorated args kwargs
               = (ev @ ev1 @ [Signature (dunder_name decorated),
                              Mapper result (cls_of (return_annotation (sig decorated)))
                                fork_inst mapper_kwargs],
                  mapper result (cls_of (return_annotation (sig decorated))) fork_inst
                    mapper_kwargs)
           \<and> invoke w rt parameters False fork_inst mapper mapper_kwargs decorated args kwargs
               = (ev @ ev1, Inr result))"
  using invoke_without_parameters [of w rt returnvalue fork_inst mapper mapper_kwargs
      decorated args kwargs]
    invoke_after_run [of rt decorated parameters mapper fork_inst args kwargs mapper_kwargs]
  by blast

text \<open>
  The method \<open>shift\<close> under three settings of the flags, and the coroutine function
  \<open>fetch\<close> with \<open>returnvalue\<close> false (the resolved string is returned, not the
  coroutine) and with \<open>parameters\<close> false (the date reaches it as it is).
\<close>

theorem adaptation_flags_witness:
  "invoke Wrapper example_builtins True True ''JsonSerializable'' example_mapper []
     example_shift [example_receiver, PyStr ''2018-10-04''] []
   = ([Signature ''shift'', Mapper (PyStr ''2018-10-04'') (Some TDate) ''JsonSerializable'' [],
       Call ''shift'' [example_receiver, PyDate ''2018-10-04''] [],
       Signature ''shift'', Mapper (PyStr ''2020-01-01'') (Some TDate) ''JsonSerializable'' []],
      Inr (PyDate ''2020-01-01''))
   \<and> invoke Wrapper example_builtins True False ''JsonSerializable'' example_mapper []
     example_shift [example_receiver, PyStr ''2018-10-04''] []
   = ([Signature ''shift'', Mapper (PyStr ''2018-10-04'') (Some TDate) ''JsonSerializable'' [],
       Call ''shift'' [example_receiver, PyDate ''2018-10-04''] []],
      Inr (PyStr ''2020-01-01''))
   \<and> invoke Wrapper example_builtins False False ''JsonSerializable'' example_mapper []
     example_shift [example_receiver, PyDate ''2018-10-04''] []
   = ([Call ''shift'' [example_receiver, PyDate ''2018-10-04''] []],
      Inr (PyStr ''2020-01-01''))
   \<and> invoke Async_wrapper example_builtins True False ''JsonSerializable'' example_mapper []
     example_fetch [PyStr ''2018-10-04''] []
   = ([Signature ''fetch'', Mapper (PyStr ''2018-10-04'') (Some TDate) ''JsonSerializable'' [],
       Call ''fetch'' [PyDate ''2018-10-04''] [],
       Await (PyCoroutine (PyStr ''2020-01-01''))],
      Inr (PyStr ''2020-01-01''))
   \<and> invoke Async_wrapper example_builtins False True ''JsonSerializable'' example_mapper []
     example_fetch [PyDate ''2018-10-04''] []
   = ([Call ''fetch'' [PyDate ''2018-10-04''] [],
       Await (PyCoroutine (PyStr ''2020-01-01'')),
       Signature ''fetch'', Mapper (PyStr ''2020-01-01'') (Some TDate) ''JsonSerializable'' []],
      Inr (PyDate ''2020-01-01''))"
proof -
  note a = adaptation_flags [where rt = example_builtins and fork_inst = "''JsonSerializable''"
      and mapper = example_mapper and mapper_kwargs = "[]"]
  have rs: "(if Wrapper = Async_wrapper \<and> isawaitable example_builtins (PyStr ''2020-01-01'')
             then ([Await (PyStr ''2020-01-01'')], await example_builtins (PyStr ''2020-01-01''))
             else ([], Inr (PyStr ''2020-01-01'')))
            = ([] :: (pyval, pytype, string, string) event list, Inr (PyStr ''2020-01-01''))"
    by simp
  from a [where w = Wrapper and decorated = example_shift and parameters = True
      and args = "[example_receiver, PyStr ''2018-10-04'']" and kwargs = "[]"]
    example_shift_run rs
  have on: "invoke Wrapper example_builtins True True ''JsonSerializable'' example_mapper []
       example_shift [example_receiver, PyStr ''2018-10-04''] []
     = ([Signature ''shift'',
         Mapper (PyStr ''2018-10-04'') (Some TDate) ''JsonSerializable'' [],
         Call ''shift'' [example_receiver, PyDate ''2018-10-04''] []] @ [] @
        [Signature (dunder_name example_shift),
         Mapper (PyStr ''2020-01-01'') (cls_of (return_annotation (sig example_shift)))
           ''JsonSerializable'' []],
        example_mapper (PyStr ''2020-01-01'') (cls_of (return_annotation (sig example_shift)))
           ''JsonSerializable'' [])
     \<and> invoke Wrapper example_builtins True False ''JsonSerializable'' example_mapper []
       example_shift [example_receiver, PyStr ''2018-10-04''] []
     = ([Signature ''shift'',
         Mapper (PyStr ''2018-10-04'') (Some TDate) ''JsonSerializable'' [],
         Call ''shift'' [example_receiver, PyDate ''2018-10-04''] []] @ [],
        Inr (PyStr ''2020-01-01''))"
    by blast
  from a [where w = Wrapper and decorated = example_shift and returnvalue = False
      and args = "[example_receiver, PyDate ''2018-10-04'']" and kwargs = "[]"]
  have off: "invoke Wrapper example_builtins False False ''JsonSerializable'' example_mapper []
       example_shift [example_receiver, PyDate ''2018-10-04''] []
     = ([Call ''shift'' [example_receiver, PyDate ''2018-10-04''] []],
        Inr (PyStr ''2020-01-01''))"
    by (simp add: example_shift_def example_receiver_def)
  have ra: "(if Async_wrapper = Async_wrapper
                \<and> isawaitable example_builtins (PyCoroutine (PyStr ''2020-01-01''))
             then ([Await (PyCoroutine (PyStr ''2020-01-01''))],
                   await example_builtins (PyCoroutine (PyStr ''2020-01-01'')))
             else ([], Inr (PyCoroutine (PyStr ''2020-01-01''))))
            = ([Await (PyCoroutine (PyStr ''2020-01-01''))
                 :: (pyval, pytype, string, string) event],
               Inr (PyStr ''2020-01-01''))"
    by (simp add: example_builtins_def)
  from a [where w = Async_wrapper and decorated = example_fetch and parameters = True
      and args = "[PyStr ''2018-10-04'']" and kwargs = "[]"]
    example_fetch_run ra
  have aoff: "invoke Async_wrapper example_builtins True False ''JsonSerializable''
       example_mapper [] example_fetch [PyStr ''2018-10-04''] []
     = ([Signature ''fetch'',
         Mapper (PyStr ''2018-10-04'') (Some TDate) ''JsonSerializable'' [],
         Call ''fetch'' [PyDate ''2018-10-04''] []] @
        [Await (PyCoroutine (PyStr ''2020-01-01''))],
        Inr (PyStr ''2020-01-01''))"
    by blast
  from a [where w = Async_wrapper and decorated = example_fetch and returnvalue = True
      and args = "[PyDate ''2018-10-04'']" and kwargs = "[]"]
  have apar: "invoke Async_wrapper example_builtins False True ''JsonSerializable''
       example_mapper [] example_fetch [PyDate ''2018-10-04''] []
     = ([Call ''fetch'' [PyDate ''2018-10-04''] [],
         Await (PyCoroutine (PyStr ''2020-01-01'')),
         Signature ''fetch'',
         Mapper (PyStr ''2020-01-01'') (Some TDate) ''JsonSerializable'' []],
        Inr (PyDate ''2020-01-01''))"
    by (simp add: example_fetch_def example_builtins_def)
  from on have on': "invoke Wrapper example_builtins True True ''JsonSerializable''
       example_mapper [] example_shift [example_receiver, PyStr ''2018-10-04''] []
     = ([Signature ''shift'',
         Mapper (PyStr ''2018-10-04'') (Some TDate) ''JsonSerializable'' [],
         Call ''shift'' [example_receiver, PyDate ''2018-10-04''] [],
         Signature ''shift'',
         Mapper (PyStr ''2020-01-01'') (Some TDate) ''JsonSerializable'' []],
        Inr (PyDate ''2020-01-01''))
     \<and> invoke Wrapper example_builtins True False ''JsonSerializable'' example_mapper []
       example_shift [example_receiver, PyStr ''2018-10-04''] []
     = ([Signature ''shift'',
         Mapper (PyStr ''2018-10-04'') (Some TDate) ''JsonSerializable'' [],
         Call ''shift'' [example_receiver, PyDate ''2018-10-04''] []],
        Inr (PyStr ''2020-01-01''))"
    by (simp add: example_shift_def)
  from on' off aoff apar show ?thesis by simp
qed

text \<open>
  Claim C6.  Every call of the decorated callable that an invocation of either wrapper
  makes carries the keyword arguments of the invocation; with or without a mapper, once
  the positional arguments are ready the decorated callable is called with them and with
  those keyword arguments; and the mapper calls made before the decorated callable is
  called are the same as for an invocation without keyword arguments.
\<close>

theorem keyword_arguments_forwarded:
  "(\<forall>n a kw. Call n a kw \<in> set (fst (invoke w rt parameters returnvalue fork_inst mapper
                                        mapper_kwargs decorated args kwargs))
       \<longrightarrow> kw = kwargs)
   \<and> (\<forall>ev new_args.
         (case mapper_opt of
            None \<Rightarrow> ([], Inr args)
          | Some m \<Rightarrow> map_args rt args decorated fork_inst m mapper_kwargs) = (ev, Inr new_args)
         \<longrightarrow> run_decorated rt decorated mapper_opt fork_inst args kwargs mapper_kwargs
               = (ev @ [Call (dunder_name decorated) new_args kwargs],
                  call decorated new_args kwargs))
   \<and> filter is_Mapper
        (fst (run_decorated rt decorated mapper_opt fork_inst args kwargs mapper_kwargs))
     = filter is_Mapper
        (fst (run_decorated rt decorated mapper_opt fork_inst args [] mapper_kwargs))"
proof (intro conjI allI impI)
  fix n a kw
  assume "Call n a kw \<in> set (fst (invoke w rt parameters returnvalue fork_inst mapper
                                        mapper_kwargs decorated args kwargs))"
  then show "kw = kwargs" by (rule invoke_calls)
next
  fix ev new_args
  assume "(case mapper_opt of
            None \<Rightarrow> ([], Inr args)
          | Some m \<Rightarrow> map_args rt args decorated fork_inst m mapper_kwargs) = (ev, Inr new_args)"
  then show "run_decorated rt decorated mapper_opt fork_inst args kwargs mapper_kwargs
               = (ev @ [Call (dunder_name decorated) new_args kwargs],
                  call decorated new_args kwargs)"
    by (cases mapper_opt) (auto simp: run_decorated_def)
next
  show "filter is_Mapper
        (fst (run_decorated rt decorated mapper_opt fork_inst args kwargs mapper_kwargs))
     = filter is_Mapper
        (fst (run_decorated rt decorated mapper_opt fork_inst args [] mapper_kwargs))"
    by (rule run_decorated_mapper_events)
qed

text \<open>
  The method \<open>shift\<close> called with \<open>when\<close> as a keyword argument: the string given for
  it reaches the method as it is, although the parameter \<open>when\<close> is annotated.
\<close>

theorem keyword_arguments_forwarded_witness:
  "run_decorated example_builtins example_shift (Some example_mapper) ''JsonSerializable''
     [example_receiver, PyStr ''2018-10-04''] [(''when'', PyStr ''2019-01-01'')] []
   = ([Signature ''shift'', Mapper (PyStr ''2018-10-04'') (Some TDate) ''JsonSerializable'' [],
       Call ''shift'' [example_receiver, PyDate ''2018-10-04'']
         [(''when'', PyStr ''2019-01-01'')]],
      call example_shift [example_receiver, PyDate ''2018-10-04'']
        [(''when'', PyStr ''2019-01-01'')])"
  using keyword_arguments_forwarded [where mapper_opt = "Some example_mapper"
      and rt = example_builtins and decorated = example_shift
      and fork_inst = "''JsonSerializable''" and mapper_kwargs = "[]"
      and args = "[example_receiver, PyStr ''2018-10-04'']"
      and kwargs = "[(''when'', PyStr ''2019-01-01'')]"]
    example_shift_map_args
  by (simp add: example_shift_def)

text \<open>
  Claim C7.  A \<open>staticmethod\<close> object and a class are rejected when the decorator is
  applied (\<open>decorator_rejects_staticmethod\<close>, \<open>decorator_rejects_class\<close>).  A
  \<open>classmethod\<close> object is not: the guard tests \<open>isinstance(decorated, staticmethod)\<close>
  only, although its warning and its exception speak of "a static- or classmethod", and
  the decorator returns \<open>_wrapper\<close> without raising.
\<close>

theorem decorator_accepts_classmethod:
  "decorator example_classmethod = ([], Inr Wrapper)"
  by (simp add: decorator_def example_classmethod_def)

text \<open>
  Claim C8.  The decorator returns the coroutine wrapper exactly when the decorated
  callable is a coroutine function.  When the coroutine wrapper runs with \<open>returnvalue\<close>
  true, and the decorated callable returned an awaitable \<open>a\<close> that resolves to \<open>r\<close>, then
  after the events of \<open>_run_decorated\<close> come the \<open>await\<close> of \<open>a\<close>, the call of
  \<open>signature\<close> and the mapper call on \<open>r\<close>, whose result is the result; and the events
  of \<open>_run_decorated\<close> are calls of \<open>signature\<close> and of the mapper followed by the call
  of the decorated callable, so no \<open>await\<close> precedes that call.
\<close>

theorem suspending_dispatch:
  "(\<forall>(ev :: ('v, 'ty, 'f, 'k) event list) w.
       decorator decorated = (ev, Inr w)
       \<longrightarrow> (w = Async_wrapper) = iscoroutinefunction (kind decorated))
   \<and> (kind decorated = CoroutineFunction
       \<longrightarrow> decorator decorated = ([] :: ('v, 'ty, 'f, 'k) event list, Inr Async_wrapper))
   \<and> (\<forall>ev a r.
         run_decorated rt decorated (if parameters then Some mapper else None)
           (fork_inst :: 'f) args kwargs (mapper_kwargs :: 'k kwargs)
           = (ev, Inr (a :: 'v))
         \<and> isawaitable rt a \<and> await rt a = Inr r
         \<longrightarrow> invoke Async_wrapper rt parameters True fork_inst mapper mapper_kwargs decorated
               args kwargs
               = (ev @ [Await a, Signature (dunder_name decorated),
                        Mapper r (cls_of (return_annotation (sig decorated))) fork_inst
                          mapper_kwargs],
                  mapper r (cls_of (return_annotation (sig decorated))) fork_inst
                    mapper_kwargs)
           \<and> (\<exists>evp new_args.
                 ev = evp @ [Call (dunder_name decorated) new_args kwargs]
                 \<and> (\<forall>e \<in> set evp. is_Signature e \<or> is_Mapper e)
                 \<and> call decorated new_args kwargs = Inr a))"
proof (intro conjI allI impI)
  fix ev :: "('v, 'ty, 'f, 'k) event list" and w
  assume "decorator decorated = (ev, Inr w)"
  then show "(w = Async_wrapper) = iscoroutinefunction (kind decorated)"
    by (auto simp: decorator_def split: if_splits)
next
  assume "kind decorated = CoroutineFunction"
  then show "decorator decorated = ([] :: ('v, 'ty, 'f, 'k) event list, Inr Async_wrapper)"
    by (simp add: decorator_def)
next
  fix ev a r
  assume h: "run_decorated rt decorated (if parameters then Some mapper else None) fork_inst
           args kwargs mapper_kwargs = (ev, Inr a)
         \<and> isawaitable rt a \<and> await rt a = Inr r"
  then show "invoke Async_wrapper rt parameters True fork_inst mapper mapper_kwargs decorated
               args kwargs
               = (ev @ [Await a, Signature (dunder_name decorated),
                        Mapper r (cls_of (return_annotation (sig decorated))) fork_inst
                          mapper_kwargs],
                  mapper r (cls_of (return_annotation (sig decorated))) fork_inst
                    mapper_kwargs)"
    by (simp add: async_wrapper_def map_returnvalue_def Let_def)
  from h have "run_decorated rt decorated (if parameters then Some mapper else None) fork_inst
           args kwargs mapper_kwargs = (ev, Inr a)" by simp
  then show "\<exists>evp new_args.
                 ev = evp @ [Call (dunder_name decorated) new_args kwargs]
                 \<and> (\<forall>e \<in> set evp. is_Signature e \<or> is_Mapper e)
                 \<and> call decorated new_args kwargs = Inr a"
    by (rule run_decorated_shape)
qed

text \<open>
  The coroutine function \<open>fetch\<close>: awaiting the wrapped call gives the date, neither the
  coroutine nor the string.
\<close>

theorem suspending_dispatch_witness:
  "decorator example_fetch
     = ([] :: (pyval, pytype, string, string) event list, Inr Async_wrapper)
   \<and> invoke Async_wrapper example_builtins True True ''JsonSerializable'' example_mapper []
       example_fetch [PyStr ''2018-10-04''] []
     = ([Signature ''fetch'',
         Mapper (PyStr ''2018-10-04'') (Some TDate) ''JsonSerializable'' [],
         Call ''fetch'' [PyDate ''2018-10-04''] [],
         Await (PyCoroutine (PyStr ''2020-01-01'')),
         Signature ''fetch'',
         Mapper (PyStr ''2020-01-01'') (Some TDate) ''JsonSerializable'' []],
        Inr (PyDate ''2020-01-01''))"
proof -
  note s = suspending_dispatch [where decorated = example_fetch and rt = example_builtins
      and parameters = True and mapper = example_mapper and fork_inst = "''JsonSerializable''"
      and args = "[PyStr ''2018-10-04'']" and kwargs = "[]" and mapper_kwargs = "[]"]
  have k: "kind example_fetch = CoroutineFunction" by (simp add: example_fetch_def)
  from s k have d: "decorator example_fetch
     = ([] :: (pyval, pytype, string, string) event list, Inr Async_wrapper)"
    by blast
  have aw: "isawaitable example_builtins (PyCoroutine (PyStr ''2020-01-01''))
      \<and> await example_builtins (PyCoroutine (PyStr ''2020-01-01'')) = Inr (PyStr ''2020-01-01'')"
    by (simp add: example_builtins_def)
  from s example_fetch_run aw
  have "invoke Async_wrapper example_builtins True True ''JsonSerializable'' example_mapper []
       example_fetch [PyStr ''2018-10-04''] []
     = ([Signature ''fetch'',
         Mapper (PyStr ''2018-10-04'') (Some TDate) ''JsonSerializable'' [],
         Call ''fetch'' [PyDate ''2018-10-04''] []]
        @ [Await (PyCoroutine (PyStr ''2020-01-01'')),
           Signature (dunder_name example_fetch),
           Mapper (PyStr ''2020-01-01'') (cls_of (return_annotation (sig example_fetch)))
             ''JsonSerializable'' []],
        example_mapper (PyStr ''2020-01-01'') (cls_of (return_annotation (sig example_fetch)))
             ''JsonSerializable'' [])"
    by blast
  then have "invoke Async_wrapper example_builtins True True ''JsonSerializable'' example_mapper []
       example_fetch [PyStr ''2018-10-04''] []
     = ([Signature ''fetch'',
         Mapper (PyStr ''2018-10-04'') (Some TDate) ''JsonSerializable'' [],
         Call ''fetch'' [PyDate ''2018-10-04''] [],
         Await (PyCoroutine (PyStr ''2020-01-01'')),
         Signature ''fetch'',
         Mapper (PyStr ''2020-01-01'') (Some TDate) ''JsonSerializable'' []],
        Inr (PyDate ''2020-01-01''))"
    by (simp add: example_fetch_def)
  with d show ?thesis by simp
qed

text \<open>
  Claim C9 as stated fails: applying the decorator to \<open>shift\<close> calls \<open>signature\<close> not at
  all, and one invocation of the wrapper calls it twice.
\<close>

theorem signature_introspection_counterexample:
  "filter is_Signature
     (fst (decorator example_shift
           :: (pyval, pytype, string, string) event list \<times> ((pyval, pytype) exn + wrapper_variant)))
     = []
   \<and> decorator example_shift
     = ([] :: (pyval, pytype, string, string) event list, Inr Wrapper)
   \<and> filter is_Signature
       (fst (invoke Wrapper example_builtins True True ''JsonSerializable'' example_mapper []
               example_shift [example_receiver, PyStr ''2018-10-04''] []))
     = [Signature ''shift'', Signature ''shift'']"
proof -
  have "run_decorated example_builtins example_shift (if True then Some example_mapper else None)
     ''JsonSerializable'' [example_receiver, PyStr ''2018-10-04''] [] []
   = ([Signature ''shift'', Mapper (PyStr ''2018-10-04'') (Some TDate) ''JsonSerializable'' [],
       Call ''shift'' [example_receiver, PyDate ''2018-10-04''] []],
      Inr (PyStr ''2020-01-01''))"
    using example_shift_map_args
    by (simp add: run_decorated_def) (simp add: example_shift_def example_receiver_def)
  then have "filter is_Signature
       (fst (invoke Wrapper example_builtins True True ''JsonSerializable'' example_mapper []
               example_shift [example_receiver, PyStr ''2018-10-04''] []))
     = [Signature ''shift'', Signature ''shift'']"
    by (simp add: wrapper_def map_returnvalue_def Let_def) (simp add: example_shift_def)
  moreover have "decorator example_shift
     = ([] :: (pyval, pytype, string, string) event list, Inr Wrapper)"
    by (simp add: decorator_def example_shift_def)
  ultimately show ?thesis by simp
qed

text \<open>
  Claim C9, as amended.  Applying the decorator never calls \<open>signature\<close>.  An invocation
  of either wrapper calls it once if \<open>parameters\<close> is true (in \<open>_get_params_sig\<close>) and
  once more if \<open>returnvalue\<close> is true and the return value conversion is reached (in
  \<open>_map_returnvalue\<close>), which is when the same invocation with \<open>returnvalue\<close> false
  would not raise.
\<close>

theorem signature_introspection_per_call:
  "filter is_Signature (fst (decorator decorated)) = []
   \<and> length (filter is_Signature
        (fst (invoke w rt parameters returnvalue fork_inst mapper mapper_kwargs decorated
                args kwargs)))
     = (if parameters then 1 else 0)
       + (if returnvalue
             \<and> \<not> isl (snd (invoke w rt parameters False fork_inst mapper mapper_kwargs
                              decorated args kwargs))
          then 1 else 0)"
  using decorator_no_signature [of decorated]
    invoke_signature_count [of w rt parameters returnvalue fork_inst mapper mapper_kwargs
      decorated args kwargs]
  by simp

text \<open>
  Claim C10.  With \<open>parameters\<close> true, an invocation of either wrapper with more
  positional arguments than the decorated callable has parameters raises \<open>IndexError\<close>
  after the call of \<open>signature\<close>, before any call of the mapper or of the decorated
  callable; so an invocation that does not raise has at most as many positional
  arguments as there are parameters, and with that many the pairing succeeds.
\<close>

theorem too_many_positional_arguments:
  "(length (sig_parameters (sig decorated)) < length args
      \<longrightarrow> invoke w rt True returnvalue fork_inst mapper mapper_kwargs decorated args kwargs
            = ([Signature (dunder_name decorated)], Inl IndexError))
   \<and> (\<not> isl (snd (invoke w rt True returnvalue fork_inst mapper mapper_kwargs decorated
                     args kwargs))
      \<longrightarrow> length args \<le> length (sig_parameters (sig decorated)))
   \<and> (length args \<le> length (sig_parameters (sig decorated))
      \<longrightarrow> get_params_sig args decorated
            = ([Signature (dunder_name decorated)],
               Inr (zip args (sig_parameters (sig decorated)))))"
proof (intro conjI impI)
  assume "length (sig_parameters (sig decorated)) < length args"
  then show "invoke w rt True returnvalue fork_inst mapper mapper_kwargs decorated args kwargs
            = ([Signature (dunder_name decorated)], Inl IndexError)"
    by (rule invoke_too_many_args)
next
  assume ok: "\<not> isl (snd (invoke w rt True returnvalue fork_inst mapper mapper_kwargs decorated
                     args kwargs))"
  show "length args \<le> length (sig_parameters (sig decorated))"
  proof (rule ccontr)
    assume "\<not> length args \<le> length (sig_parameters (sig decorated))"
    then have "length (sig_parameters (sig decorated)) < length args" by simp
    from invoke_too_many_args [OF this, of w rt returnvalue fork_inst mapper mapper_kwargs kwargs]
      ok show False by simp
  qed
next
  assume "length args \<le> length (sig_parameters (sig decorated))"
  then show "get_params_sig args decorated
            = ([Signature (dunder_name decorated)],
               Inr (zip args (sig_parameters (sig decorated))))"
    by (simp add: get_params_sig_eq)
qed

text \<open>The method \<open>shift\<close>, of two parameters, with three and with two arguments.\<close>

theorem too_many_positional_arguments_witness:
  "invoke Wrapper example_builtins True True ''JsonSerializable'' example_mapper []
     example_shift [example_receiver, PyStr ''2018-10-04'', PyNone] []
   = ([Signature ''shift''], Inl IndexError)
   \<and> get_params_sig [example_receiver, PyStr ''2018-10-04''] example_shift
   = ([Signature ''shift''] :: (pyval, pytype, string, string) event list,
      Inr [(example_receiver, \<lparr> name = ''self'', annotation = Parameter_empty \<rparr>),
           (PyStr ''2018-10-04'', \<lparr> name = ''when'', annotation = Annotation TDate \<rparr>)])"
proof -
  from too_many_positional_arguments [where decorated = example_shift
      and args = "[example_receiver, PyStr ''2018-10-04'', PyNone]" and w = Wrapper
      and rt = example_builtins and returnvalue = True and fork_inst = "''JsonSerializable''"
      and mapper = example_mapper and mapper_kwargs = "[]" and kwargs = "[]"]
  have a: "invoke Wrapper example_builtins True True ''JsonSerializable'' example_mapper []
     example_shift [example_receiver, PyStr ''2018-10-04'', PyNone] []
   = ([Signature ''shift''], Inl IndexError)"
    by (simp add: example_shift_def)
  from too_many_positional_arguments [where decorated = example_shift
      and args = "[example_receiver, PyStr ''2018-10-04'']"]
  have b: "get_params_sig [example_receiver, PyStr ''2018-10-04''] example_shift
   = ([Signature ''shift''] :: (pyval, pytype, string, string) event list,
      Inr [(example_receiver, \<lparr> name = ''self'', annotation = Parameter_empty \<rparr>),
           (PyStr ''2018-10-04'', \<lparr> name = ''when'', annotation = Annotation TDate \<rparr>)])"
    by (simp add: example_shift_def)
  from a b show ?thesis by simp
qed

end
